theory Spec2Isabelle
  imports Complex_Main "HOL-Library.Multiset"
begin

section \<open>Strings\<close>

text \<open>
  A Python string is modelled as a \<^typ>\<open>string\<close> whose characters are the code points
  below 256 (the Latin-1 repertoire): one \<^typ>\<open>char\<close> is one code point, so
  \<^const>\<open>length\<close> counts what Python's \<^verbatim>\<open>len\<close> counts. The character classes below are
  the ones that \<^verbatim>\<open>str.lower\<close>, \<^verbatim>\<open>str.strip\<close> and the patterns of
  \<^verbatim>\<open>search_utils.py\<close> (compiled by the \<^verbatim>\<open>regex\<close> module, imported as \<^verbatim>\<open>re\<close>) use,
  restricted to that repertoire.
\<close>

definition code_point :: "char \<Rightarrow> nat" where
  "code_point c = of_char c"

definition is_upper :: "char \<Rightarrow> bool" where
  \<comment> \<open>the code points below 256 that \<^verbatim>\<open>str.lower\<close> changes: A-Z and the accented capitals\<close>
  "is_upper c = (let n = code_point c in
     (65 \<le> n \<and> n \<le> 90) \<or> (192 \<le> n \<and> n \<le> 214) \<or> (216 \<le> n \<and> n \<le> 222))"

definition lower_char :: "char \<Rightarrow> char" where
  "lower_char c = (if is_upper c then char_of (code_point c + 32) else c)"

definition lower :: "string \<Rightarrow> string" where
  \<comment> \<open>\<^verbatim>\<open>s.lower()\<close>\<close>
  "lower s = map lower_char s"

definition is_letter :: "char \<Rightarrow> bool" where
  \<comment> \<open>\<^verbatim>\<open>[A-Za-z]\<close>\<close>
  "is_letter c = (let n = code_point c in (65 \<le> n \<and> n \<le> 90) \<or> (97 \<le> n \<and> n \<le> 122))"

definition is_digit :: "char \<Rightarrow> bool" where
  \<comment> \<open>\<^verbatim>\<open>\d\<close>\<close>
  "is_digit c = (let n = code_point c in 48 \<le> n \<and> n \<le> 57)"

definition re_space :: "char \<Rightarrow> bool" where
  \<comment> \<open>\<^verbatim>\<open>\s\<close>: tab, line feed, vertical tab, form feed, carriage return, space,
      next line, no-break space\<close>
  "re_space c = (let n = code_point c in (9 \<le> n \<and> n \<le> 13) \<or> n = 32 \<or> n = 133 \<or> n = 160)"

definition py_isspace :: "char \<Rightarrow> bool" where
  \<comment> \<open>the characters \<^verbatim>\<open>str.strip()\<close> removes: those of \<^verbatim>\<open>\s\<close> and the four
      information separators\<close>
  "py_isspace c = (let n = code_point c in
     (9 \<le> n \<and> n \<le> 13) \<or> (28 \<le> n \<and> n \<le> 32) \<or> n = 133 \<or> n = 160)"

definition re_word :: "char \<Rightarrow> bool" where
  \<comment> \<open>\<^verbatim>\<open>\w\<close>: letters, digits and the underscore, the letters being those of Latin-1\<close>
  "re_word c = (let n = code_point c in
     (48 \<le> n \<and> n \<le> 57) \<or> (65 \<le> n \<and> n \<le> 90) \<or> n = 95 \<or> (97 \<le> n \<and> n \<le> 122) \<or>
     n = 170 \<or> n = 181 \<or> n = 186 \<or> (192 \<le> n \<and> n \<le> 214) \<or> (216 \<le> n \<and> n \<le> 246) \<or>
     (248 \<le> n \<and> n \<le> 255))"

fun starts_with :: "string \<Rightarrow> string \<Rightarrow> bool" where
  \<comment> \<open>\<^verbatim>\<open>hay.startswith(needle)\<close>, the needle first\<close>
  "starts_with [] hay = True"
| "starts_with (n # ns) [] = False"
| "starts_with (n # ns) (h # hs) = (n = h \<and> starts_with ns hs)"

fun contains :: "string \<Rightarrow> string \<Rightarrow> bool" where
  \<comment> \<open>\<^verbatim>\<open>needle in hay\<close>\<close>
  "contains needle [] = (needle = [])"
| "contains needle (h # hs) = (starts_with needle (h # hs) \<or> contains needle hs)"

definition strip_chars :: "(char \<Rightarrow> bool) \<Rightarrow> string \<Rightarrow> string" where
  \<comment> \<open>\<^verbatim>\<open>s.strip(chars)\<close>: drop the characters of the class at both ends\<close>
  "strip_chars cls s = rev (dropWhile cls (rev (dropWhile cls s)))"

definition strip :: "string \<Rightarrow> string" where
  \<comment> \<open>\<^verbatim>\<open>s.strip()\<close>\<close>
  "strip s = strip_chars py_isspace s"

section \<open>Amenity vocabulary\<close>

definition key_amenities :: "string list" where
  "key_amenities =
    [''hot tub'',
     ''wifi'',
     ''kitchen'',
     ''wine glasses'',
     ''air conditioning'',
     ''central heating'',
     ''microwave'',
     ''paid street parking off premises'',
     ''washer'',
     ''dryer'',
     ''pets allowed'',
     ''smoke alarm'',
     ''private entrance'',
     ''bathtub'',
     ''first aid kit'',
     ''accessible'',
     ''private patio or balcony'']"

definition AMENITY_SYNONYMS :: "(string \<times> string list) list" where
  \<comment> \<open>the dictionary, in insertion order, which is the order \<^verbatim>\<open>items()\<close> iterates in\<close>
  "AMENITY_SYNONYMS =
    [(''hot tub'', [''jacuzzi'', ''spa'', ''hot-tub'']),
     (''wifi'', [''internet'', ''wireless'']),
     (''air conditioning'', [''ac'', ''aircon'']),
     (''private patio or balcony'', [''balcony'', ''terrace'']),
     (''pets allowed'', [''pet friendly'', ''dog friendly'']),
     (''accessible'', [''wheelchair'', ''step-free''])]"

definition synonyms_of :: "string \<Rightarrow> string list" where
  \<comment> \<open>\<^verbatim>\<open>AMENITY_SYNONYMS.get(a, [])\<close>\<close>
  "synonyms_of a = (case map_of AMENITY_SYNONYMS a of None \<Rightarrow> [] | Some syns \<Rightarrow> syns)"

section \<open>Amenity extraction and normalisation\<close>

text \<open>
  \<^verbatim>\<open>found_amenities\<close> is a Python set, turned into a list at the end. It is modelled as
  a list without duplicates, \<^const>\<open>List.insert\<close> being \<^verbatim>\<open>add\<close>; only the elements of
  the result matter below, not their order.
\<close>

definition check_synonyms :: "string \<Rightarrow> string \<Rightarrow> string list \<Rightarrow> string list" where
  \<comment> \<open>the inner loop of \<^verbatim>\<open>extract_intent\<close> over the synonyms of \<open>a\<close>\<close>
  "check_synonyms user_input a found =
     fold (\<lambda>syn acc. if contains (lower syn) (lower user_input) then List.insert a acc else acc)
       (synonyms_of a) found"

definition check_amenity :: "string \<Rightarrow> string \<Rightarrow> string list \<Rightarrow> string list" where
  \<comment> \<open>one round of the outer loop: the canonical name, then its synonyms\<close>
  "check_amenity user_input a found =
     check_synonyms user_input a
       (if contains (lower a) (lower user_input) then List.insert a found else found)"

definition extract_amenities :: "string \<Rightarrow> string list" where
  "extract_amenities user_input = fold (check_amenity user_input) key_amenities []"

fun normalize_loop :: "string \<Rightarrow> (string \<times> string list) list \<Rightarrow> string option" where
  "normalize_loop user_text [] = None"
| "normalize_loop user_text ((canonical, variants) # rest) =
     (if contains canonical user_text then Some canonical
      else if list_ex (\<lambda>v. contains v user_text) variants then Some canonical
      else normalize_loop user_text rest)"

definition normalize_amenity :: "string \<Rightarrow> string option" where
  "normalize_amenity user_text = normalize_loop (lower user_text) AMENITY_SYNONYMS"

section \<open>Pattern matching\<close>

text \<open>
  \<^verbatim>\<open>re.search(pattern, s, re.IGNORECASE)\<close> tries the start positions \<open>0, 1, \<dots>, len(s)\<close>
  from left to right and returns the first match; at one position the backtracking
  matcher tries the alternatives of the pattern in their order (a greedy repetition the
  longest first, a lazy one the shortest first). Each of the two patterns of
  \<^verbatim>\<open>extract_intent\<close> is written out as the function that gives, for a start position, the
  text of group 1 of the first successful alternative, or \<^const>\<open>None\<close>.
\<close>

fun first_some :: "'a option list \<Rightarrow> 'a option" where
  "first_some [] = None"
| "first_some (None # rest) = first_some rest"
| "first_some (Some v # rest) = Some v"

definition re_search :: "(string \<Rightarrow> nat \<Rightarrow> 'a option) \<Rightarrow> string \<Rightarrow> 'a option" where
  "re_search match_at s = first_some (map (match_at s) [0..<Suc (length s)])"

fun match_literal :: "string \<Rightarrow> string \<Rightarrow> string option" where
  \<comment> \<open>a literal under \<^verbatim>\<open>IGNORECASE\<close>; the result is the text after it\<close>
  "match_literal [] text = Some text"
| "match_literal (k # ks) [] = None"
| "match_literal (k # ks) (c # cs) =
     (if lower_char c = lower_char k then match_literal ks cs else None)"

definition word_boundary :: "string \<Rightarrow> nat \<Rightarrow> bool" where
  \<comment> \<open>\<^verbatim>\<open>\b\<close> at position \<open>i\<close>: a word character on exactly one side\<close>
  "word_boundary s i =
     ((0 < i \<and> re_word (s ! (i - 1))) \<noteq> (i < length s \<and> re_word (s ! i)))"

subsection \<open>The location pattern\<close>

text \<open>\<^verbatim>\<open>\b(?:in|at)\s+([A-Za-z\s]+?)(?:\s|$|,)\<close>\<close>

fun terminator :: "string \<Rightarrow> bool" where
  \<comment> \<open>\<^verbatim>\<open>(?:\s|$|,)\<close>; \<^verbatim>\<open>$\<close> matches at the end and before a final line feed\<close>
  "terminator [] = True"
| "terminator (c # cs) = (re_space c \<or> (c = CHR 0x0A \<and> cs = []) \<or> c = CHR '','')"

definition loc_char :: "char \<Rightarrow> bool" where
  \<comment> \<open>\<^verbatim>\<open>[A-Za-z\s]\<close>\<close>
  "loc_char c = (is_letter c \<or> re_space c)"

fun loc_group :: "string \<Rightarrow> string option" where
  \<comment> \<open>the lazy group and what follows it: one more character at a time, the
      shortest group that a terminator follows\<close>
  "loc_group [] = None"
| "loc_group (c # cs) =
     (if \<not> loc_char c then None
      else if terminator cs then Some [c]
      else map_option ((#) c) (loc_group cs))"

fun loc_spaces :: "string \<Rightarrow> string option" where
  \<comment> \<open>\<^verbatim>\<open>\s+\<close>, greedy: the longest run first, giving back one character at a time\<close>
  "loc_spaces [] = None"
| "loc_spaces (c # cs) =
     (if re_space c
      then (case loc_spaces cs of Some g \<Rightarrow> Some g | None \<Rightarrow> loc_group cs)
      else None)"

definition loc_match_at :: "string \<Rightarrow> nat \<Rightarrow> string option" where
  "loc_match_at s i =
     (if word_boundary s i
      then first_some
        [Option.bind (match_literal ''in'' (drop i s)) loc_spaces,
         Option.bind (match_literal ''at'' (drop i s)) loc_spaces]
      else None)"

subsection \<open>The price pattern\<close>

text \<open>
  \<^verbatim>\<open>(?:under|below|max)\s*[\<dots>$]?(\d+(?:,\d{3})*(?:\.\d+)?)\<close>, where the class holds the
  code points 194, 163 and 36 (the pound sign is stored in the source as the two
  characters 194 and 163) and, under \<^verbatim>\<open>IGNORECASE\<close>, the lower-case 226.
  The pattern ends with the group, whose repetitions may all match nothing after the
  first digits, so the greedy choice is the match; a shorter run of \<^verbatim>\<open>\s*\<close> leaves a
  space where a digit must follow, so only the optional class gives an alternative.
\<close>

definition is_currency :: "char \<Rightarrow> bool" where
  "is_currency c = (let n = code_point c in n = 194 \<or> n = 226 \<or> n = 163 \<or> n = 36)"

fun thousands :: "string \<Rightarrow> string" where
  \<comment> \<open>\<^verbatim>\<open>(?:,\d{3})*\<close>: the text it matches at the head of the argument\<close>
  "thousands (c # d1 # d2 # d3 # cs) =
     (if c = CHR '','' \<and> is_digit d1 \<and> is_digit d2 \<and> is_digit d3
      then c # d1 # d2 # d3 # thousands cs else [])"
| "thousands cs = []"

fun decimals :: "string \<Rightarrow> string" where
  \<comment> \<open>\<^verbatim>\<open>(?:\.\d+)?\<close>\<close>
  "decimals (c # d # cs) =
     (if c = CHR ''.'' \<and> is_digit d then c # d # takeWhile is_digit cs else [])"
| "decimals cs = []"

definition price_number :: "string \<Rightarrow> string option" where
  \<comment> \<open>the group \<^verbatim>\<open>(\d+(?:,\d{3})*(?:\.\d+)?)\<close>\<close>
  "price_number text =
     (let ds = takeWhile is_digit text; r1 = dropWhile is_digit text;
          th = thousands r1; r2 = drop (length th) r1
      in if ds = [] then None else Some (ds @ th @ decimals r2))"

definition price_tail :: "string \<Rightarrow> string option" where
  \<comment> \<open>\<^verbatim>\<open>\s*[\<dots>$]?\<close> and the group\<close>
  "price_tail text =
     (let r = dropWhile re_space text
      in case r of
           [] \<Rightarrow> None
         | c # cs \<Rightarrow>
             if is_currency c then first_some [price_number cs, price_number r]
             else price_number r)"

definition price_match_at :: "string \<Rightarrow> nat \<Rightarrow> string option" where
  "price_match_at s i =
     first_some
       [Option.bind (match_literal ''under'' (drop i s)) price_tail,
        Option.bind (match_literal ''below'' (drop i s)) price_tail,
        Option.bind (match_literal ''max'' (drop i s)) price_tail]"

subsection \<open>Numbers\<close>

text \<open>
  \<^verbatim>\<open>float\<close> of a string of digits with an optional decimal part. Python's floats are
  modelled as real numbers: rounding and overflow to infinity are left out.
\<close>

definition digits_val :: "string \<Rightarrow> nat" where
  "digits_val ds = foldl (\<lambda>acc c. 10 * acc + (code_point c - 48)) 0 ds"

definition py_float :: "string \<Rightarrow> real" where
  "py_float text =
     (let ip = takeWhile (\<lambda>c. c \<noteq> CHR ''.'') text; fp = drop (Suc (length ip)) text
      in real (digits_val ip) + real (digits_val fp) / 10 ^ length fp)"

section \<open>Intent extraction\<close>

record intent =
  location :: "string option"
  max_price :: "real option"
  amenities :: "string list"

definition extract_intent :: "string \<Rightarrow> intent" where
  "extract_intent user_input =
     \<lparr> location = map_option strip (re_search loc_match_at user_input),
       max_price = map_option (\<lambda>g. py_float (filter (\<lambda>c. c \<noteq> CHR '','') g))
                     (re_search price_match_at user_input),
       amenities = extract_amenities user_input \<rparr>"

section \<open>Scoring\<close>

text \<open>
  A row of the listing table: the columns the search reads. The type \<open>'e\<close> is the type
  of embeddings; the embedding model and the library's cosine similarity are parameters
  of the functions that use them. Prices and scores are real numbers. The amenity
  columns are a map from the column name to the flag, a missing column being
  \<^const>\<open>None\<close>.
\<close>

record 'e listing =
  city :: string
  price :: real
  description_embedding :: 'e
  flags :: "string \<Rightarrow> real option"

datatype error = ZeroDivisionError

definition row_get :: "'e listing \<Rightarrow> string \<Rightarrow> real" where
  \<comment> \<open>\<^verbatim>\<open>row.get(a, 0)\<close>\<close>
  "row_get r a = (case flags r a of None \<Rightarrow> 0 | Some v \<Rightarrow> v)"

definition py_div :: "real \<Rightarrow> real \<Rightarrow> error + real" where
  \<comment> \<open>\<^verbatim>\<open>a / b\<close> on Python numbers: a zero divisor raises\<close>
  "py_div a b = (if b = 0 then Inl ZeroDivisionError else Inr (a / b))"

definition final_score ::
  "('e \<Rightarrow> 'e \<Rightarrow> real) \<Rightarrow> 'e listing \<Rightarrow> 'e \<Rightarrow> string list \<Rightarrow> real option \<Rightarrow> error + real" where
  "final_score cosine_similarity r query_embedding requested_amenities max_price' =
     (let semantic_sim = cosine_similarity (description_embedding r) query_embedding;
          amenity_sim =
            (if requested_amenities \<noteq> []
             then sum_list (map (row_get r) requested_amenities) / real (length requested_amenities)
             else 0);
          price_penalty =
            (case max_price' of
               None \<Rightarrow> Inr 0
             | Some m \<Rightarrow> if price r > m then py_div (price r - m) m else Inr 0)
      in case price_penalty of
           Inl e \<Rightarrow> Inl e
         | Inr penalty \<Rightarrow> Inr (semantic_sim + amenity_sim - penalty))"

section \<open>Search\<close>










subsection \<open>Two sorting functions\<close>



definition dot :: "real list \<Rightarrow> real list \<Rightarrow> real" where
  \<comment> \<open>the inner product, which is the cosine similarity of two unit vectors\<close>
  "dot u v = sum_list (map2 (*) u v)"

subsection \<open>The formula of the specification\<close>

definition amenity_ratio :: "'e listing \<Rightarrow> string list \<Rightarrow> real" where
  "amenity_ratio r requested =
     (if requested = [] then 0
      else (\<Sum>a\<leftarrow>requested. row_get r a) / real (length requested))"

definition price_penalty_spec :: "'e listing \<Rightarrow> real option \<Rightarrow> real" where
  "price_penalty_spec r max_price' =
     (case max_price' of None \<Rightarrow> 0 | Some m \<Rightarrow> max 0 ((price r - m) / m))"

definition price_in_range :: "real option \<Rightarrow> bool" where
  \<comment> \<open>the ceiling is absent or positive\<close>
  "price_in_range max_price' = (case max_price' of None \<Rightarrow> True | Some m \<Rightarrow> 0 < m)"

subsection \<open>Substrings, as the specification words them\<close>

definition ci_substring :: "string \<Rightarrow> string \<Rightarrow> bool" where
  \<comment> \<open>\<open>name\<close> appears in \<open>text\<close>, letter case apart\<close>
  "ci_substring name text = (\<exists>p m s. text = p @ m @ s \<and> lower m = lower name)"

definition mentions :: "string \<Rightarrow> string \<Rightarrow> bool" where
  \<comment> \<open>the two tests of one round of the amenity loop\<close>
  "mentions user_input a =
     (contains (lower a) (lower user_input) \<or>
      list_ex (\<lambda>syn. contains (lower syn) (lower user_input)) (synonyms_of a))"

definition number_continues :: "string \<Rightarrow> bool" where
  \<comment> \<open>the text after a number would extend it: a digit, a comma and three digits,
      or a point and a digit\<close>
  "number_continues t = (takeWhile is_digit t \<noteq> [] \<or> thousands t \<noteq> [] \<or> decimals t \<noteq> [])"


subsection \<open>The rows the search scores\<close>



subsection \<open>Sample data\<close>


definition sample_rome :: "real list listing" where
  "sample_rome =
     \<lparr>city = ''Rome'', price = 100, description_embedding = [1, 0],
      flags = [''wifi'' \<mapsto> 1]\<rparr>"


section \<open>The score\<close>

text \<open>
  C1. For every row, query embedding, list of requested amenities and ceiling that is
  absent or positive, \<^const>\<open>final_score\<close> returns a score, and the score is the semantic
  similarity plus the amenity ratio minus the price penalty: the ratio is the sum of the
  row's flags for the requested amenities over their number, and 0 when none is
  requested; the penalty is \<open>max 0 ((price - max_price) / max_price)\<close>, and 0 without a
  ceiling.
\<close>

theorem final_score_formula:
  assumes "price_in_range mp"
  shows "final_score cs r qe reqs mp =
     Inr (cs (description_embedding r) qe + amenity_ratio r reqs - price_penalty_spec r mp)"
proof (cases mp)
  case None
  then show ?thesis
    by (simp add: final_score_def amenity_ratio_def price_penalty_spec_def)
next
  case (Some m)
  with assms have pos: "0 < m" by (simp add: price_in_range_def)
  show ?thesis
  proof (cases "price r > m")
    case True
    with pos have "0 \<le> (price r - m) / m" by simp
    then have "max 0 ((price r - m) / m) = (price r - m) / m" by simp
    with True pos Some show ?thesis
      by (simp add: final_score_def amenity_ratio_def price_penalty_spec_def py_div_def)
  next
    case False
    with pos have "(price r - m) / m \<le> 0" by (simp add: divide_le_0_iff)
    then have "max 0 ((price r - m) / m) = 0" by simp
    with False pos Some show ?thesis
      by (simp add: final_score_def amenity_ratio_def price_penalty_spec_def)
  qed
qed

theorem final_score_formula_witness:
  "price_in_range (Some 50) \<and>
   final_score dot sample_rome [1, 0] [''wifi'', ''kitchen''] (Some 50) = Inr (1 / 2)"
proof -
  have h: "price_in_range (Some 50)"
    by (simp add: price_in_range_def)
  show ?thesis
    using h final_score_formula [OF h, of dot sample_rome "[1, 0]" "[''wifi'', ''kitchen'']"]
    by (simp add: amenity_ratio_def price_penalty_spec_def dot_def sample_rome_def row_get_def)
qed

section \<open>Substring tests\<close>

lemma starts_with_iff: "starts_with n h \<longleftrightarrow> (\<exists>s. h = n @ s)"
  by (induction n h rule: starts_with.induct) auto

lemma contains_iff: "contains n h \<longleftrightarrow> (\<exists>p s. h = p @ n @ s)"
proof (induction h)
  case Nil
  then show ?case by simp
next
  case (Cons x hs)
  have "(\<exists>p s. x # hs = p @ n @ s) \<longleftrightarrow> (\<exists>s. x # hs = n @ s) \<or> (\<exists>p s. hs = p @ n @ s)"
  proof
    assume "\<exists>p s. x # hs = p @ n @ s"
    then obtain p s where eq: "x # hs = p @ n @ s" by blast
    show "(\<exists>s. x # hs = n @ s) \<or> (\<exists>p s. hs = p @ n @ s)"
    proof (cases p)
      case Nil
      with eq show ?thesis by auto
    next
      case (Cons y p')
      with eq have "hs = p' @ n @ s" by simp
      then show ?thesis by blast
    qed
  next
    assume "(\<exists>s. x # hs = n @ s) \<or> (\<exists>p s. hs = p @ n @ s)"
    then show "\<exists>p s. x # hs = p @ n @ s"
    proof
      assume "\<exists>s. x # hs = n @ s"
      then obtain s where "x # hs = [] @ n @ s" by auto
      then show ?thesis by blast
    next
      assume "\<exists>p s. hs = p @ n @ s"
      then obtain p s where "x # hs = (x # p) @ n @ s" by auto
      then show ?thesis by blast
    qed
  qed
  with Cons show ?case by (simp add: starts_with_iff)
qed

lemma contains_lower_iff: "contains (lower n) (lower t) \<longleftrightarrow> ci_substring n t"
proof
  assume "contains (lower n) (lower t)"
  then obtain p s where eq: "map lower_char t = p @ map lower_char n @ s"
    by (auto simp: contains_iff lower_def)
  define m where "m = take (length n) (drop (length p) t)"
  have "map lower_char m = take (length n) (drop (length p) (map lower_char t))"
    by (simp add: m_def take_map drop_map)
  also have "\<dots> = map lower_char n"
    by (simp add: eq)
  finally have low: "lower m = lower n"
    by (simp add: lower_def)
  have "t = take (length p) t @ drop (length p) t"
    by simp
  also have "drop (length p) t = m @ drop (length n) (drop (length p) t)"
    unfolding m_def by (rule append_take_drop_id [symmetric])
  finally have "t = take (length p) t @ m @ drop (length n) (drop (length p) t)" .
  with low show "ci_substring n t"
    unfolding ci_substring_def by blast
next
  assume "ci_substring n t"
  then obtain p m s where "t = p @ m @ s" and "lower m = lower n"
    by (auto simp: ci_substring_def)
  then have "lower t = lower p @ lower n @ lower s"
    by (simp add: lower_def)
  then show "contains (lower n) (lower t)"
    unfolding contains_iff by blast
qed

lemma ci_substring_exact: "t = p @ n @ s \<Longrightarrow> ci_substring n t"
  unfolding ci_substring_def by blast

section \<open>Extracted amenities\<close>

lemma set_fold_insert_if:
  "set (fold (\<lambda>x acc. if P x then List.insert a acc else acc) xs found) =
     set found \<union> (if list_ex P xs then {a} else {})"
  by (induction xs arbitrary: found) auto

lemma set_check_amenity:
  "set (check_amenity q a found) = set found \<union> (if mentions q a then {a} else {})"
  by (auto simp: check_amenity_def check_synonyms_def set_fold_insert_if mentions_def)

lemma set_fold_check_amenity:
  "set (fold (check_amenity q) as found) = set found \<union> {a \<in> set as. mentions q a}"
  by (induction as arbitrary: found) (auto simp: set_check_amenity)

lemma set_extract_amenities:
  "set (extract_amenities q) = {a \<in> set key_amenities. mentions q a}"
  by (simp add: extract_amenities_def set_fold_check_amenity)

lemma amenity_member_iff:
  "a \<in> set key_amenities \<Longrightarrow>
     (a \<in> set (amenities (extract_intent q)) \<longleftrightarrow>
        ci_substring a q \<or> (\<exists>syn \<in> set (synonyms_of a). ci_substring syn q))"
  by (simp add: extract_intent_def set_extract_amenities mentions_def contains_lower_iff
      list_ex_iff)

text \<open>
  C6. For every query and every canonical amenity of the vocabulary, the amenity is among
  the extracted amenities exactly when its canonical name or one of its synonyms appears
  in the query, letter case apart. Each amenity is decided on its own, and nothing looks
  at the words around the match. In particular a query that contains \<open>jacuzzi\<close> yields
  \<open>hot tub\<close>.
\<close>

theorem extract_intent_amenities:
  "(a \<in> set key_amenities \<longrightarrow>
      (a \<in> set (amenities (extract_intent q)) \<longleftrightarrow>
         ci_substring a q \<or> (\<exists>syn \<in> set (synonyms_of a). ci_substring syn q))) \<and>
   ((\<exists>p s. q = p @ ''jacuzzi'' @ s) \<longrightarrow> ''hot tub'' \<in> set (amenities (extract_intent q)))"
proof (intro conjI impI)
  assume "a \<in> set key_amenities"
  then show "a \<in> set (amenities (extract_intent q)) \<longleftrightarrow>
      ci_substring a q \<or> (\<exists>syn \<in> set (synonyms_of a). ci_substring syn q)"
    by (rule amenity_member_iff)
next
  assume "\<exists>p s. q = p @ ''jacuzzi'' @ s"
  then have "ci_substring ''jacuzzi'' q"
    by (auto intro: ci_substring_exact)
  moreover have "''jacuzzi'' \<in> set (synonyms_of ''hot tub'')"
    by (simp add: synonyms_of_def AMENITY_SYNONYMS_def)
  moreover have "''hot tub'' \<in> set key_amenities"
    by (simp add: key_amenities_def)
  ultimately show "''hot tub'' \<in> set (amenities (extract_intent q))"
    using amenity_member_iff [of "''hot tub''" q] by blast
qed

theorem extract_intent_amenities_witness:
  "''pets allowed'' \<in> set key_amenities \<and>
   ci_substring ''pets allowed'' ''No Pets Allowed, no jacuzzi'' \<and>
   ''pets allowed'' \<in> set (amenities (extract_intent ''No Pets Allowed, no jacuzzi'')) \<and>
   ''hot tub'' \<in> set (amenities (extract_intent ''No Pets Allowed, no jacuzzi''))"
proof -
  have k: "''pets allowed'' \<in> set key_amenities"
    by (simp add: key_amenities_def)
  have "lower ''Pets Allowed'' = lower ''pets allowed''"
    by code_simp
  moreover have "''No Pets Allowed, no jacuzzi'' = ''No '' @ ''Pets Allowed'' @ '', no jacuzzi''"
    by simp
  ultimately have c: "ci_substring ''pets allowed'' ''No Pets Allowed, no jacuzzi''"
    unfolding ci_substring_def by blast
  have j: "\<exists>p s. ''No Pets Allowed, no jacuzzi'' = p @ ''jacuzzi'' @ s"
    by (rule exI [of _ "''No Pets Allowed, no ''"], rule exI [of _ "[]"]) simp
  show ?thesis
    using k c j
      extract_intent_amenities [of "''pets allowed''" "''No Pets Allowed, no jacuzzi''"]
    by blast
qed

section \<open>The first match of a pattern\<close>

lemma first_some_all_None: "list_all (\<lambda>x. x = None) xs \<Longrightarrow> first_some (xs @ ys) = first_some ys"
  by (induction xs) auto


lemma re_search_first:
  assumes "k \<le> length s" and "\<forall>i<k. m s i = None" and "m s k = Some v"
  shows "re_search m s = Some v"
proof -
  have "[0..<k + (Suc (length s) - k)] = [0..<k] @ [k..<k + (Suc (length s) - k)]"
    by (rule upt_add_eq_append) simp
  moreover have "[k..<Suc (length s)] = k # [Suc k..<Suc (length s)]"
    using assms(1) by (simp add: upt_conv_Cons)
  ultimately have "[0..<Suc (length s)] = [0..<k] @ k # [Suc k..<Suc (length s)]"
    using assms(1) by simp
  moreover have "list_all (\<lambda>x. x = None) (map (m s) [0..<k])"
    using assms(2) by (simp add: list_all_iff)
  ultimately show ?thesis
    using assms(3) by (simp add: re_search_def first_some_all_None)
qed

lemma re_search_None_iff: "re_search m s = None \<longleftrightarrow> (\<forall>i\<le>length s. m s i = None)"
proof
  assume n: "re_search m s = None"
  show "\<forall>i\<le>length s. m s i = None"
  proof (rule ccontr)
    assume "\<not> (\<forall>i\<le>length s. m s i = None)"
    then have "\<exists>k. k \<le> length s \<and> m s k \<noteq> None" by blast
    then obtain k where k: "k \<le> length s \<and> m s k \<noteq> None" and least: "\<forall>i<k. \<not> (i \<le> length s \<and> m s i \<noteq> None)"
      using exists_least_iff [of "\<lambda>k. k \<le> length s \<and> m s k \<noteq> None"] by blast
    from k obtain v where v: "m s k = Some v" by blast
    from least k have "\<forall>i<k. m s i = None" by auto
    with k v have "re_search m s = Some v"
      by (intro re_search_first [of k]) auto
    with n show False by simp
  qed
next
  assume "\<forall>i\<le>length s. m s i = None"
  then have "list_all (\<lambda>x. x = None) (map (m s) [0..<Suc (length s)])"
    by (simp add: list_all_iff)
  then have "first_some (map (m s) [0..<Suc (length s)] @ []) = first_some []"
    by (rule first_some_all_None)
  then show "re_search m s = None" by (simp add: re_search_def)
qed



section \<open>The shape of an extracted location\<close>














section \<open>The extracted location\<close>

lemma lower_char_ascii [simp]:
  "lower_char (CHR ''i'') = CHR ''i''" "lower_char (CHR ''n'') = CHR ''n''"
  "lower_char (CHR ''a'') = CHR ''a''" "lower_char (CHR ''t'') = CHR ''t''"
  by (simp_all add: lower_char_def is_upper_def code_point_def)

lemma loc_group_London: "terminator t \<Longrightarrow> loc_group (''London'' @ t) = Some ''London''"
  by (simp add: loc_char_def is_letter_def re_space_def code_point_def)

lemma loc_spaces_London: "terminator t \<Longrightarrow> loc_spaces ('' London'' @ t) = Some ''London''"
  using loc_group_London [of t]
  by (simp add: re_space_def code_point_def)

lemma strip_London: "strip ''London'' = ''London''"
  by (simp add: strip_def strip_chars_def py_isspace_def code_point_def)

lemma loc_match_at_London:
  assumes "kw = ''in'' \<or> kw = ''at''" and "p = [] \<or> \<not> re_word (last p)" and "terminator t"
  shows "loc_match_at (p @ kw @ '' London'' @ t) (length p) = Some ''London''"
proof -
  let ?s = "p @ kw @ '' London'' @ t"
  from assms(1) have w: "re_word (?s ! length p)"
    by (auto simp: nth_append re_word_def code_point_def)
  have "\<not> (0 < length p \<and> re_word (?s ! (length p - 1)))"
    using assms(2) by (auto simp: nth_append last_conv_nth)
  with w assms(1) have "word_boundary ?s (length p)"
    by (auto simp: word_boundary_def)
  moreover have "drop (length p) ?s = kw @ '' London'' @ t"
    by simp
  ultimately show ?thesis
    using assms(1) loc_spaces_London [OF assms(3)]
    by (auto simp: loc_match_at_def)
qed

lemma London_first_match:
  assumes kw: "kw = ''in'' \<or> kw = ''at''" and q: "q = p @ kw @ '' London'' @ t"
    and p: "p = [] \<or> \<not> re_word (last p)" and t: "terminator t"
    and none: "\<forall>i<length p. loc_match_at q i = None"
  shows "location (extract_intent q) = Some ''London''"
proof -
  have "loc_match_at q (length p) = Some ''London''"
    unfolding q using kw p t by (rule loc_match_at_London)
  moreover have "length p \<le> length q"
    unfolding q by simp
  ultimately have "re_search loc_match_at q = Some ''London''"
    using none by (intro re_search_first [of "length p"])
  then show "location (extract_intent q) = Some ''London''"
    by (simp add: extract_intent_def strip_London)
qed

lemma absent_location_iff:
  "(\<forall>i\<le>length q. loc_match_at q i = None) \<longleftrightarrow> location (extract_intent q) = None"
  by (simp add: extract_intent_def re_search_None_iff)


text \<open>
  C7. A query in which \<open>in London\<close> or \<open>at London\<close> starts at a word boundary, is followed
  by whitespace, a comma or the end of the query, and is not preceded by an earlier match
  of the location pattern, yields the location \<open>London\<close>. The location is absent exactly
  when the pattern matches at no position of the query.
\<close>

theorem location_London:
  "((kw = ''in'' \<or> kw = ''at'') \<and> q = p @ kw @ '' London'' @ t \<and>
    (p = [] \<or> \<not> re_word (last p)) \<and> terminator t \<and>
    (\<forall>i<length p. loc_match_at q i = None)
      \<longrightarrow> location (extract_intent q) = Some ''London'') \<and>
   ((\<forall>i\<le>length q. loc_match_at q i = None) \<longleftrightarrow> location (extract_intent q) = None)"
proof (rule conjI)
  show "(kw = ''in'' \<or> kw = ''at'') \<and> q = p @ kw @ '' London'' @ t \<and>
    (p = [] \<or> \<not> re_word (last p)) \<and> terminator t \<and>
    (\<forall>i<length p. loc_match_at q i = None)
      \<longrightarrow> location (extract_intent q) = Some ''London''"
  proof (rule impI, elim conjE)
    assume "kw = ''in'' \<or> kw = ''at''" and "q = p @ kw @ '' London'' @ t"
      and "p = [] \<or> \<not> re_word (last p)" and "terminator t"
      and "\<forall>i<length p. loc_match_at q i = None"
    then show "location (extract_intent q) = Some ''London''"
      by (rule London_first_match)
  qed
next
  show "(\<forall>i\<le>length q. loc_match_at q i = None) \<longleftrightarrow> location (extract_intent q) = None"
    by (rule absent_location_iff)
qed

lemma all_less_Suc: "(\<forall>i<Suc n. P i) \<longleftrightarrow> P n \<and> (\<forall>i<n. P i)"
  by (auto simp: less_Suc_eq)

theorem location_London_witness:
  "\<not> re_word (last ''a flat '') \<and> terminator '', cheap'' \<and>
   location (extract_intent ''a flat at London, cheap'') = Some ''London''"
proof -
  have n: "\<forall>i<length ''a flat ''. loc_match_at ''a flat at London, cheap'' i = None"
    by (simp add: all_less_Suc loc_match_at_def word_boundary_def re_word_def code_point_def
        lower_char_def is_upper_def)
  have w: "\<not> re_word (last ''a flat '')"
    by (simp add: re_word_def code_point_def)
  have t: "terminator '', cheap''"
    by simp
  have e: "''a flat at London, cheap'' = ''a flat '' @ ''at'' @ '' London'' @ '', cheap''"
    by simp
  from location_London [of "''at''" "''a flat at London, cheap''" "''a flat ''" "'', cheap''"]
  have imp: "(''at'' = ''in'' \<or> ''at'' = ''at'') \<and>
      ''a flat at London, cheap'' = ''a flat '' @ ''at'' @ '' London'' @ '', cheap'' \<and>
      (''a flat '' = [] \<or> \<not> re_word (last ''a flat '')) \<and> terminator '', cheap'' \<and>
      (\<forall>i<length ''a flat ''. loc_match_at ''a flat at London, cheap'' i = None)
      \<longrightarrow> location (extract_intent ''a flat at London, cheap'') = Some ''London''"
    by (rule conjunct1)
  have "location (extract_intent ''a flat at London, cheap'') = Some ''London''"
  proof (rule mp [OF imp], intro conjI)
    show "''at'' = ''in'' \<or> ''at'' = ''at''" by (rule disjI2) (rule refl)
    show "''a flat at London, cheap'' = ''a flat '' @ ''at'' @ '' London'' @ '', cheap''"
      by (rule e)
    show "''a flat '' = [] \<or> \<not> re_word (last ''a flat '')"
      using w by (rule disjI2)
    show "terminator '', cheap''" by (rule t)
    show "\<forall>i<length ''a flat ''. loc_match_at ''a flat at London, cheap'' i = None"
      by (rule n)
  qed
  with w t show ?thesis by (intro conjI)
qed

text \<open>
  A query that contains \<open>in London\<close> and whose location is not \<open>London\<close>: the group runs
  on to the end of the word.
\<close>

theorem location_Londonderry:
  "contains ''in London'' ''in Londonderry'' \<and>
   location (extract_intent ''in Londonderry'') = Some ''Londonderry''"
  by (simp add: extract_intent_def re_search_def loc_match_at_def word_boundary_def re_word_def
      code_point_def lower_char_def is_upper_def loc_char_def is_letter_def re_space_def
      strip_def strip_chars_def py_isspace_def)

section \<open>The extracted price ceiling\<close>

lemma lower_char_price [simp]:
  "lower_char (CHR ''u'') = CHR ''u''" "lower_char (CHR ''b'') = CHR ''b''"
  "lower_char (CHR ''m'') = CHR ''m''" "lower_char (CHR ''x'') = CHR ''x''"
  "lower_char (CHR ''d'') = CHR ''d''" "lower_char (CHR ''e'') = CHR ''e''"
  "lower_char (CHR ''r'') = CHR ''r''"
  by (simp_all add: lower_char_def is_upper_def code_point_def)

lemma price_number_200:
  assumes "\<not> number_continues t"
  shows "price_number (''200'' @ t) = Some ''200''"
proof -
  from assms have tw: "takeWhile is_digit t = []" and th: "thousands t = []"
    and de: "decimals t = []"
    by (simp_all add: number_continues_def)
  have "takeWhile is_digit t @ dropWhile is_digit t = t"
    by (rule takeWhile_dropWhile_id)
  with tw have dw: "dropWhile is_digit t = t" by simp
  have d: "is_digit (CHR ''2'')" "is_digit (CHR ''0'')"
    by (simp_all add: is_digit_def code_point_def)
  show ?thesis
    by (simp add: price_number_def d tw dw th de)
qed

lemma price_tail_200:
  assumes "\<not> number_continues t"
  shows "price_tail ('' 200'' @ t) = Some ''200''"
    and "price_tail ('' '' @ [CHR 0xA3] @ ''200'' @ t) = Some ''200''"
  using price_number_200 [OF assms]
  by (simp_all add: price_tail_def re_space_def is_currency_def code_point_def)

lemma price_match_at_200:
  assumes "\<not> number_continues t"
  shows "price_match_at (p @ ''under 200'' @ t) (length p) = Some ''200''"
    and "price_match_at (p @ ''max '' @ [CHR 0xA3] @ ''200'' @ t) (length p) = Some ''200''"
  using price_tail_200 [OF assms]
  by (simp_all add: price_match_at_def)

lemma py_float_200: "py_float ''200'' = 200"
  by (simp add: py_float_def digits_val_def code_point_def)

lemma first_price_200:
  assumes q: "q = p @ ''under 200'' @ t \<or> q = p @ ''max '' @ [CHR 0xA3] @ ''200'' @ t"
    and t: "\<not> number_continues t"
    and none: "\<forall>i<length p. price_match_at q i = None"
  shows "max_price (extract_intent q) = Some 200"
proof -
  from q have "price_match_at q (length p) = Some ''200''"
    using price_match_at_200 [OF t, of p] by (elim disjE) simp_all
  moreover from q have "length p \<le> length q"
    by (elim disjE) simp_all
  ultimately have "re_search price_match_at q = Some ''200''"
    using none by (intro re_search_first [of "length p"])
  then show ?thesis
    by (simp add: extract_intent_def py_float_200)
qed

lemma absent_price_iff:
  "(\<forall>i\<le>length q. price_match_at q i = None) \<longleftrightarrow> max_price (extract_intent q) = None"
  by (simp add: extract_intent_def re_search_None_iff)

text \<open>
  A query that contains \<open>under 200\<close> and whose ceiling is not 200: the digits run on.
\<close>

theorem max_price_under_2000:
  "contains ''under 200'' ''under 2000'' \<and>
   max_price (extract_intent ''under 2000'') = Some 2000"
  by (simp add: extract_intent_def re_search_def price_match_at_def price_tail_def
      price_number_def is_digit_def is_currency_def re_space_def code_point_def
      lower_char_def is_upper_def py_float_def digits_val_def)

text \<open>
  C8. A query in which \<open>under 200\<close> or \<open>max\<close>, a space, the pound sign and \<open>200\<close> is
  followed by nothing that extends the number (a digit, a comma and three digits, or a
  point and a digit) and is not preceded by an earlier match of the price pattern, yields
  the ceiling 200. The ceiling is absent exactly when the pattern matches at no position
  of the query.
\<close>

theorem max_price_200:
  "((q = p @ ''under 200'' @ t \<or> q = p @ ''max '' @ [CHR 0xA3] @ ''200'' @ t) \<and>
    \<not> number_continues t \<and> (\<forall>i<length p. price_match_at q i = None)
      \<longrightarrow> max_price (extract_intent q) = Some 200) \<and>
   ((\<forall>i\<le>length q. price_match_at q i = None) \<longleftrightarrow> max_price (extract_intent q) = None)"
proof (rule conjI)
  show "(q = p @ ''under 200'' @ t \<or> q = p @ ''max '' @ [CHR 0xA3] @ ''200'' @ t) \<and>
    \<not> number_continues t \<and> (\<forall>i<length p. price_match_at q i = None)
      \<longrightarrow> max_price (extract_intent q) = Some 200"
  proof (rule impI, elim conjE)
    assume "q = p @ ''under 200'' @ t \<or> q = p @ ''max '' @ [CHR 0xA3] @ ''200'' @ t"
      and "\<not> number_continues t" and "\<forall>i<length p. price_match_at q i = None"
    then show "max_price (extract_intent q) = Some 200"
      by (rule first_price_200)
  qed
next
  show "(\<forall>i\<le>length q. price_match_at q i = None) \<longleftrightarrow> max_price (extract_intent q) = None"
    by (rule absent_price_iff)
qed

theorem max_price_200_witness:
  "\<not> number_continues '', ok'' \<and>
   max_price (extract_intent (''a flat max '' @ [CHR 0xA3] @ ''200, ok'')) = Some 200"
proof -
  let ?q = "''a flat max '' @ [CHR 0xA3] @ ''200, ok''"
  have c: "\<not> number_continues '', ok''"
    by (simp add: number_continues_def is_digit_def code_point_def)
  have n: "\<forall>i<length ''a flat ''. price_match_at ?q i = None"
    by (simp add: all_less_Suc price_match_at_def lower_char_def is_upper_def code_point_def)
  have e: "?q = ''a flat '' @ ''max '' @ [CHR 0xA3] @ ''200'' @ '', ok''"
    by simp
  from max_price_200 [of ?q "''a flat ''" "'', ok''"]
  have imp: "(?q = ''a flat '' @ ''under 200'' @ '', ok'' \<or>
       ?q = ''a flat '' @ ''max '' @ [CHR 0xA3] @ ''200'' @ '', ok'') \<and>
      \<not> number_continues '', ok'' \<and> (\<forall>i<length ''a flat ''. price_match_at ?q i = None)
      \<longrightarrow> max_price (extract_intent ?q) = Some 200"
    by (rule conjunct1)
  have "max_price (extract_intent ?q) = Some 200"
  proof (rule mp [OF imp], intro conjI)
    show "?q = ''a flat '' @ ''under 200'' @ '', ok'' \<or>
       ?q = ''a flat '' @ ''max '' @ [CHR 0xA3] @ ''200'' @ '', ok''"
      using e by (rule disjI2)
    show "\<not> number_continues '', ok''" by (rule c)
    show "\<forall>i<length ''a flat ''. price_match_at ?q i = None" by (rule n)
  qed
  with c show ?thesis by (intro conjI)
qed


section \<open>The search\<close>
















section \<open>The search on sample tables\<close>

















section \<open>Normalising one amenity\<close>

text \<open>
  C5. \<^const>\<open>normalize_amenity\<close> walks the synonym dictionary only, so a canonical
  name that has no synonyms is not recognised, although it is in the vocabulary and
  \<^const>\<open>extract_intent\<close> finds it.
\<close>

theorem normalize_amenity_kitchen:
  "''kitchen'' \<in> set key_amenities \<and> normalize_amenity ''kitchen'' = None \<and>
   ''kitchen'' \<in> set (amenities (extract_intent ''kitchen''))"
proof (intro conjI)
  show k: "''kitchen'' \<in> set key_amenities"
    by (simp add: key_amenities_def)
  have low: "lower ''kitchen'' = ''kitchen''"
    by (simp add: lower_def lower_char_def is_upper_def code_point_def)
  show "normalize_amenity ''kitchen'' = None"
    by (simp add: normalize_amenity_def low AMENITY_SYNONYMS_def)
  have "mentions ''kitchen'' ''kitchen''"
    by (simp add: mentions_def low)
  with k show "''kitchen'' \<in> set (amenities (extract_intent ''kitchen''))"
    by (simp add: extract_intent_def set_extract_amenities)
qed

end
